theory Spec2Isabelle
  imports Main "HOL-Library.Word"
begin

section \<open>Errors, machine integers and pointers\<close>

text \<open>
  The three translation units embedded here are \<^verbatim>\<open>c10/core/impl/cow/shadow_storage.cpp\<close>,
  \<^verbatim>\<open>c10/core/Storage.cpp\<close> and \<^verbatim>\<open>torch/csrc/distributed/c10d/shuffle.cpp\<close>.
  A C++ call that does not return normally is a value \<open>Inl e\<close> of a sum type; a call that
  returns is \<open>Inr\<close> of its return value together with the object it may have changed.
\<close>

datatype error =
    InternalAssertFailed
  | NotImplementedError string
  | InvalidPointer

type_synonym uint64_t = "64 word"
type_synonym int64_t = "64 word"
type_synonym addr = nat

text \<open>\<^verbatim>\<open>std::numeric_limits<std::uint64_t>::max()\<close>: all 64 bits set.\<close>

definition uint64_max :: uint64_t where
  "uint64_max = - 1"

text \<open>
  Modelled from the spec: the macro \<^verbatim>\<open>TORCH_INTERNAL_ASSERT\<close> of
  \<^verbatim>\<open>c10/util/Exception.h\<close>, which is not among the sources. A check that holds lets
  execution go on; a check that fails is a fatal internal-consistency violation, and the
  statements after it are not executed.
\<close>

definition TORCH_INTERNAL_ASSERT :: "bool \<Rightarrow> error + unit" where
  "TORCH_INTERNAL_ASSERT cond = (if cond then Inr () else Inl InternalAssertFailed)"

text \<open>
  The macro \<^verbatim>\<open>C10_THROW_ERROR\<close> is defined in the same header, outside the sources,
  and the specification does not describe it. It is read as its name and its use say:
  it throws the error class given first, carrying the message given second.
\<close>

definition C10_THROW_ERROR :: "(string \<Rightarrow> error) \<Rightarrow> string \<Rightarrow> error + 'a" where
  "C10_THROW_ERROR err_type msg = Inl (err_type msg)"

text \<open>
  An \<^verbatim>\<open>intrusive_ptr<T>\<close> holds the address of its target or is null; \<open>get\<close> is the
  raw pointer. Reference counts are not modelled: no operation below reads them.
\<close>

datatype intrusive_ptr = intrusive_ptr (get: "addr option")

abbreviation nullptr :: "addr option" where
  "nullptr \<equiv> None"


section \<open>\<^verbatim>\<open>cow::detail::ShadowStorageImpl<intrusive>\<close>\<close>

text \<open>
  The class template has one data member, \<^verbatim>\<open>generation_\<close>, the field
  \<open>generation_mem\<close> here (a name cannot end in an underscore; the members of the other
  classes are renamed the same way). The template argument \<^verbatim>\<open>intrusive\<close> (shared or
  exclusive ownership) is the first argument of every member function of the model; the
  source has one body for both instantiations.
\<close>

record ShadowStorageImpl =
  generation_mem :: uint64_t

definition ShadowStorageImpl_ctor :: "bool \<Rightarrow> uint64_t \<Rightarrow> ShadowStorageImpl" where
  "ShadowStorageImpl_ctor intrusive generation0 = \<lparr>generation_mem = generation0\<rparr>"

definition generation :: "bool \<Rightarrow> ShadowStorageImpl \<Rightarrow> uint64_t" where
  "generation intrusive self = generation_mem self"

text \<open>
  \<^verbatim>\<open>TORCH_INTERNAL_ASSERT(generation_ != max); return ++generation_;\<close>
  The pre-increment is the wrapping addition of \<open>64 word\<close>; the value returned is the
  member after the store.
\<close>

definition bump_generation ::
    "bool \<Rightarrow> ShadowStorageImpl \<Rightarrow> error + (uint64_t \<times> ShadowStorageImpl)" where
  "bump_generation intrusive self =
     (case TORCH_INTERNAL_ASSERT (generation_mem self \<noteq> uint64_max) of
        Inl e \<Rightarrow> Inl e
      | Inr _ \<Rightarrow>
          (let self' = self\<lparr>generation_mem := generation_mem self + 1\<rparr>
           in Inr (generation_mem self', self')))"

subsection \<open>Sequences of calls on one counter\<close>

datatype counter_call = Call_generation | Call_bump_generation

fun call ::
    "bool \<Rightarrow> counter_call \<Rightarrow> ShadowStorageImpl \<Rightarrow> error + (uint64_t \<times> ShadowStorageImpl)" where
  "call intrusive Call_generation self = Inr (generation intrusive self, self)"
| "call intrusive Call_bump_generation self = bump_generation intrusive self"

text \<open>
  \<open>run_calls\<close> performs the calls in order. It gives the values returned so far and
  either the counter after the last call or the failure that stopped the sequence.
\<close>

fun run_calls ::
    "bool \<Rightarrow> counter_call list \<Rightarrow> ShadowStorageImpl
      \<Rightarrow> uint64_t list \<times> (error + ShadowStorageImpl)" where
  "run_calls intrusive [] self = ([], Inr self)"
| "run_calls intrusive (c # cs) self =
     (case call intrusive c self of
        Inl e \<Rightarrow> ([], Inl e)
      | Inr (v, self') \<Rightarrow>
          (case run_calls intrusive cs self' of (vs, r) \<Rightarrow> (v # vs, r)))"

definition bump_times ::
    "bool \<Rightarrow> nat \<Rightarrow> ShadowStorageImpl \<Rightarrow> uint64_t list \<times> (error + ShadowStorageImpl)" where
  "bump_times intrusive n self = run_calls intrusive (replicate n Call_bump_generation) self"

subsection \<open>Counters held through pointers\<close>

text \<open>
  Objects of the class live in a store; an address is an index into it. A pointer that
  does not denote a live object cannot be dereferenced.
\<close>

type_synonym heap = "ShadowStorageImpl list"

definition deref :: "heap \<Rightarrow> addr \<Rightarrow> error + ShadowStorageImpl" where
  "deref h a = (if a < length h then Inr (h ! a) else Inl InvalidPointer)"

definition new_ShadowStorageImpl :: "bool \<Rightarrow> uint64_t \<Rightarrow> heap \<Rightarrow> addr \<times> heap" where
  "new_ShadowStorageImpl intrusive generation0 h =
     (length h, h @ [ShadowStorageImpl_ctor intrusive generation0])"

definition generation_at :: "bool \<Rightarrow> addr \<Rightarrow> heap \<Rightarrow> error + uint64_t" where
  "generation_at intrusive a h =
     (case deref h a of Inl e \<Rightarrow> Inl e | Inr obj \<Rightarrow> Inr (generation intrusive obj))"

definition bump_generation_at :: "bool \<Rightarrow> addr \<Rightarrow> heap \<Rightarrow> error + (uint64_t \<times> heap)" where
  "bump_generation_at intrusive a h =
     (case deref h a of
        Inl e \<Rightarrow> Inl e
      | Inr obj \<Rightarrow>
          (case bump_generation intrusive obj of
             Inl e \<Rightarrow> Inl e
           | Inr (v, obj') \<Rightarrow> Inr (v, h[a := obj'])))"

fun bump_generation_at_times :: "bool \<Rightarrow> nat \<Rightarrow> addr \<Rightarrow> heap \<Rightarrow> error + heap" where
  "bump_generation_at_times intrusive 0 a h = Inr h"
| "bump_generation_at_times intrusive (Suc n) a h =
     (case bump_generation_at intrusive a h of
        Inl e \<Rightarrow> Inl e
      | Inr (v, h') \<Rightarrow> bump_generation_at_times intrusive n a h')"


section \<open>\<^verbatim>\<open>cow::ShadowStorageMixin\<close>\<close>

text \<open>
  The first argument of each function is whether \<^verbatim>\<open>PYTORCH_INSTRUMENT_COW_TENSOR\<close> is
  defined in the build. Without it the constructor has no member initialiser and the
  accessors do not read the object; the model keeps the field and leaves it null there.
\<close>

record ShadowStorageMixin =
  shadow_storage_mem :: intrusive_ptr

definition ShadowStorageMixin_ctor :: "bool \<Rightarrow> intrusive_ptr \<Rightarrow> ShadowStorageMixin" where
  "ShadowStorageMixin_ctor instrument_cow_tensor shadow_storage0 =
     (if instrument_cow_tensor then \<lparr>shadow_storage_mem = shadow_storage0\<rparr>
      else \<lparr>shadow_storage_mem = intrusive_ptr nullptr\<rparr>)"

definition shadow_storage :: "bool \<Rightarrow> ShadowStorageMixin \<Rightarrow> addr option" where
  "shadow_storage instrument_cow_tensor self =
     (if instrument_cow_tensor then get (shadow_storage_mem self) else nullptr)"

definition shadow_storage_ref :: "bool \<Rightarrow> ShadowStorageMixin \<Rightarrow> intrusive_ptr" where
  "shadow_storage_ref instrument_cow_tensor self =
     (if instrument_cow_tensor then shadow_storage_mem self else intrusive_ptr nullptr)"


section \<open>\<^verbatim>\<open>c10::Storage\<close>\<close>

text \<open>
  \<^verbatim>\<open>StorageImpl\<close> is declared outside the sources, so its two member functions are
  parameters: each takes the implementation object and the simulator pointer. The
  pointee of \<^verbatim>\<open>storage_impl_\<close> is kept in the field itself, \<open>None\<close> for a null pointer.
\<close>

record 'impl Storage =
  storage_impl_mem :: "'impl option"

definition simulate_copy_on_write ::
    "('impl \<Rightarrow> addr option \<Rightarrow> error + 'r) \<Rightarrow> 'impl Storage \<Rightarrow> addr option \<Rightarrow> error + 'r" where
  "simulate_copy_on_write impl_simulate_copy_on_write self simulator =
     (case TORCH_INTERNAL_ASSERT (storage_impl_mem self \<noteq> None) of
        Inl e \<Rightarrow> Inl e
      | Inr _ \<Rightarrow>
          (case storage_impl_mem self of
             None \<Rightarrow> Inl InvalidPointer
           | Some impl \<Rightarrow> impl_simulate_copy_on_write impl simulator))"

definition maybe_bump_copy_on_write_generation ::
    "('impl \<Rightarrow> addr option \<Rightarrow> error + 'impl) \<Rightarrow> 'impl Storage \<Rightarrow> addr option
      \<Rightarrow> error + 'impl Storage" where
  "maybe_bump_copy_on_write_generation impl_maybe_bump self simulator =
     (case TORCH_INTERNAL_ASSERT (storage_impl_mem self \<noteq> None) of
        Inl e \<Rightarrow> Inl e
      | Inr _ \<Rightarrow>
          (case storage_impl_mem self of
             None \<Rightarrow> Inl InvalidPointer
           | Some impl \<Rightarrow>
               (case impl_maybe_bump impl simulator of
                  Inl e \<Rightarrow> Inl e
                | Inr impl' \<Rightarrow> Inr (self\<lparr>storage_impl_mem := Some impl'\<rparr>))))"


section \<open>The operators of \<^verbatim>\<open>shuffle.cpp\<close>\<close>

text \<open>
  A tensor argument is a handle into the tensor memory \<open>'mem\<close>. The first argument of each
  function is whether \<^verbatim>\<open>USE_CUDA\<close> is defined; the CUDA entry points are only declared
  in the file and are parameters. The result pairs the outcome with the tensor memory
  as the call leaves it.
\<close>

type_synonym Tensor = addr

definition fsdp_all_gather_copy_out ::
    "bool \<Rightarrow> (Tensor list \<Rightarrow> Tensor \<Rightarrow> int64_t \<Rightarrow> 'mem \<Rightarrow> (error + unit) \<times> 'mem)
      \<Rightarrow> Tensor list \<Rightarrow> Tensor \<Rightarrow> int64_t \<Rightarrow> 'mem \<Rightarrow> (error + unit) \<times> 'mem" where
  "fsdp_all_gather_copy_out use_cuda fsdpAllGatherCopyOut params all_gather_res world_size mem =
     (if use_cuda then fsdpAllGatherCopyOut params all_gather_res world_size mem
      else (C10_THROW_ERROR NotImplementedError ''Not implemented for CPU'', mem))"

definition unflatten_cat_with_pad ::
    "bool \<Rightarrow> (Tensor list \<Rightarrow> int64_t \<Rightarrow> int64_t \<Rightarrow> Tensor \<Rightarrow> 'mem \<Rightarrow> (error + unit) \<times> 'mem)
      \<Rightarrow> Tensor list \<Rightarrow> int64_t \<Rightarrow> int64_t \<Rightarrow> Tensor \<Rightarrow> 'mem \<Rightarrow> (error + unit) \<times> 'mem" where
  "unflatten_cat_with_pad use_cuda unflatten_cat_with_pad_cuda tensors dim factor out mem =
     (if use_cuda then unflatten_cat_with_pad_cuda tensors dim factor out mem
      else (C10_THROW_ERROR NotImplementedError ''Not implemented for CPU'', mem))"

text \<open>
  \<^verbatim>\<open>TORCH_LIBRARY_FRAGMENT(c10d, m)\<close> registers both functions under their own names for
  the dispatch key \<^verbatim>\<open>CompositeExplicitAutograd\<close>: a call of a registered operator is a call
  of the function of that name.
\<close>

datatype c10d_op =
    Op_fsdp_all_gather_copy_out "Tensor list" Tensor int64_t
  | Op_unflatten_cat_with_pad "Tensor list" int64_t int64_t Tensor

fun c10d_dispatch ::
    "bool \<Rightarrow> (Tensor list \<Rightarrow> Tensor \<Rightarrow> int64_t \<Rightarrow> 'mem \<Rightarrow> (error + unit) \<times> 'mem)
      \<Rightarrow> (Tensor list \<Rightarrow> int64_t \<Rightarrow> int64_t \<Rightarrow> Tensor \<Rightarrow> 'mem \<Rightarrow> (error + unit) \<times> 'mem)
      \<Rightarrow> c10d_op \<Rightarrow> 'mem \<Rightarrow> (error + unit) \<times> 'mem" where
  "c10d_dispatch use_cuda k1 k2 (Op_fsdp_all_gather_copy_out params all_gather_res world_size) mem =
     fsdp_all_gather_copy_out use_cuda k1 params all_gather_res world_size mem"
| "c10d_dispatch use_cuda k1 k2 (Op_unflatten_cat_with_pad tensors dim factor out) mem =
     unflatten_cat_with_pad use_cuda k2 tensors dim factor out mem"


section \<open>Facts about 64-bit counters\<close>

lemma unat_uint64_max: "unat uint64_max = 2 ^ 64 - 1"
  by (simp add: uint64_max_def unsigned_minus_1_eq_mask mask_eq_exp_minus_1)

lemma uint64_below_max: "g \<noteq> uint64_max \<longleftrightarrow> unat g < 2 ^ 64 - 1"
proof -
  have "unat g < 2 ^ 64" using unsigned_less [of g] by simp
  moreover have "g = uint64_max \<longleftrightarrow> unat g = unat uint64_max"
    by (simp add: word_unat_eq_iff)
  ultimately show ?thesis by (auto simp: unat_uint64_max)
qed

lemma unat_incr: "g \<noteq> uint64_max \<Longrightarrow> unat (g + 1 :: uint64_t) = unat g + 1"
proof -
  assume "g \<noteq> uint64_max"
  then have "g + 1 \<noteq> 0" 
    by (metis uint64_max_def add_eq_0_iff2)
  then have "1 + g \<noteq> 0" by (simp add: add.commute)
  then have "unat (1 + g) = Suc (unat g)" by (rule unatSuc)
  then show ?thesis by (simp add: add.commute)
qed

lemma bump_generation_ok:
  "generation_mem self \<noteq> uint64_max \<Longrightarrow>
   bump_generation intrusive self =
     Inr (generation_mem self + 1, self\<lparr>generation_mem := generation_mem self + 1\<rparr>)"
  by (simp add: bump_generation_def TORCH_INTERNAL_ASSERT_def Let_def)

lemma bump_generation_exhausted:
  "generation_mem self = uint64_max \<Longrightarrow> bump_generation intrusive self = Inl InternalAssertFailed"
  by (simp add: bump_generation_def TORCH_INTERNAL_ASSERT_def)


lemma run_calls_bumps:
  "unat (generation_mem self) + n \<le> 2 ^ 64 - 1 \<Longrightarrow>
   run_calls intrusive (replicate n Call_bump_generation) self =
     (map (\<lambda>i. generation_mem self + of_nat (Suc i)) [0..<n],
      Inr (self\<lparr>generation_mem := generation_mem self + of_nat n\<rparr>))"
proof (induction n arbitrary: self)
  case 0
  then show ?case by simp
next
  case (Suc n)
  from Suc.prems have below: "generation_mem self \<noteq> uint64_max"
    by (simp add: uint64_below_max)
  let ?self' = "self\<lparr>generation_mem := generation_mem self + 1\<rparr>"
  from Suc.prems below have "unat (generation_mem ?self') + n \<le> 2 ^ 64 - 1"
    by (simp add: unat_incr)
  from Suc.IH [OF this] below show ?case
    by (simp add: bump_generation_ok map_upt_Suc del: upt_Suc add: add.assoc)
qed


lemma unat_add_of_nat:
  assumes "unat (g :: uint64_t) + k \<le> 2 ^ 64 - 1"
  shows "unat (g + of_nat k) = unat g + k"
proof -
  from assms have k: "k < 2 ^ 64" by simp
  then have "unat (of_nat k :: uint64_t) = k"
    by (simp add: unat_of_nat)
  moreover from this assms have "unat g + unat (of_nat k :: uint64_t) < 2 ^ LENGTH(64)"
    by simp
  then have "unat (g + of_nat k) = unat g + unat (of_nat k :: uint64_t)"
    by (simp only: unat_add_lem)
  ultimately show ?thesis by simp
qed

section \<open>Properties of the generation counter\<close>

text \<open>
  Claim C1. For either ownership policy, every initial generation \<open>G\<close> and every number
  \<open>N\<close> of calls with \<open>G + N\<close> at most \<open>2\<^sup>6\<^sup>4 - 1\<close>, \<open>N\<close> successive calls of
  \<open>bump_generation\<close> on a counter constructed with \<open>G\<close> all return, the counter ends at
  exactly \<open>G + N\<close>, and the \<open>i\<close>-th call, counted from 1, returns \<open>G + i\<close>.
\<close>

theorem bump_generation_sequence:
  assumes "unat G + N \<le> 2 ^ 64 - 1"
  shows "\<exists>rets self'.
           bump_times intrusive N (ShadowStorageImpl_ctor intrusive G) = (rets, Inr self')
         \<and> unat (generation intrusive self') = unat G + N
         \<and> length rets = N
         \<and> (\<forall>i. 1 \<le> i \<and> i \<le> N \<longrightarrow> unat (rets ! (i - 1)) = unat G + i)"
proof -
  let ?c = "ShadowStorageImpl_ctor intrusive G"
  let ?rets = "map (\<lambda>i. G + of_nat (Suc i)) [0..<N]"
  let ?end = "?c\<lparr>generation_mem := G + of_nat N\<rparr>"
  have g: "generation_mem ?c = G" by (simp add: ShadowStorageImpl_ctor_def)
  with assms have "bump_times intrusive N ?c = (?rets, Inr ?end)"
    unfolding bump_times_def using run_calls_bumps [of ?c N intrusive] by simp
  moreover have "unat (generation intrusive ?end) = unat G + N"
    using assms by (simp add: generation_def unat_add_of_nat)
  moreover have "length ?rets = N" by simp
  moreover have "\<forall>i. 1 \<le> i \<and> i \<le> N \<longrightarrow> unat (?rets ! (i - 1)) = unat G + i"
  proof (intro allI impI)
    fix i assume i: "1 \<le> i \<and> i \<le> N"
    then have "i - 1 < N" and "Suc (i - 1) = i" by auto
    then have "?rets ! (i - 1) = G + of_nat i" by (simp del: of_nat_Suc)
    moreover from i assms have "unat G + i \<le> 2 ^ 64 - 1" by simp
    ultimately show "unat (?rets ! (i - 1)) = unat G + i"
      by (simp only: unat_add_of_nat)
  qed
  ultimately show ?thesis by blast
qed

theorem bump_generation_sequence_witness:
  "unat (5 :: uint64_t) + 3 \<le> 2 ^ 64 - 1
   \<and> bump_times True 3 (ShadowStorageImpl_ctor True 5) = ([6, 7, 8], Inr \<lparr>generation_mem = 8\<rparr>)
   \<and> unat (generation True \<lparr>generation_mem = 8\<rparr>) = unat (5 :: uint64_t) + 3
   \<and> length [6, 7, 8 :: uint64_t] = 3
   \<and> unat ([6, 7, 8 :: uint64_t] ! (1 - 1)) = unat (5 :: uint64_t) + 1
   \<and> unat ([6, 7, 8 :: uint64_t] ! (2 - 1)) = unat (5 :: uint64_t) + 2
   \<and> unat ([6, 7, 8 :: uint64_t] ! (3 - 1)) = unat (5 :: uint64_t) + 3"
proof -
  have h: "unat (5 :: uint64_t) + 3 \<le> 2 ^ 64 - 1" by simp
  have run: "bump_times True 3 (ShadowStorageImpl_ctor True 5)
               = ([6, 7, 8], Inr \<lparr>generation_mem = 8\<rparr>)"
    by (simp add: bump_times_def ShadowStorageImpl_ctor_def bump_generation_def
        TORCH_INTERNAL_ASSERT_def uint64_max_def Let_def numeral_3_eq_3)
  from bump_generation_sequence [OF h, of True] run
  have all: "unat (generation True \<lparr>generation_mem = 8\<rparr>) = unat (5 :: uint64_t) + 3
     \<and> (\<forall>i. 1 \<le> i \<and> i \<le> 3 \<longrightarrow> unat ([6, 7, 8 :: uint64_t] ! (i - 1)) = unat (5 :: uint64_t) + i)"
    by simp
  then have "unat ([6, 7, 8 :: uint64_t] ! (1 - 1)) = unat (5 :: uint64_t) + 1"
    and "unat ([6, 7, 8 :: uint64_t] ! (2 - 1)) = unat (5 :: uint64_t) + 2"
    and "unat ([6, 7, 8 :: uint64_t] ! (3 - 1)) = unat (5 :: uint64_t) + 3"
    by simp_all
  with h run all show ?thesis by simp
qed

text \<open>
  Claim C2. A call of \<open>bump_generation\<close> on a counter whose generation is the largest
  64-bit value, \<open>2\<^sup>6\<^sup>4 - 1\<close>, ends in the failed internal assertion; it does not
  return, so no wrapped value 0 is stored or handed back.
\<close>

theorem bump_generation_at_max:
  assumes "generation intrusive self = uint64_max"
  shows "bump_generation intrusive self = Inl InternalAssertFailed
       \<and> unat (generation intrusive self) = 2 ^ 64 - 1"
  using assms by (simp add: generation_def bump_generation_exhausted unat_uint64_max)

theorem bump_generation_at_max_witness:
  "generation False (ShadowStorageImpl_ctor False 18446744073709551615) = uint64_max
   \<and> bump_generation False (ShadowStorageImpl_ctor False 18446744073709551615)
       = Inl InternalAssertFailed"
proof -
  have h: "generation False (ShadowStorageImpl_ctor False 18446744073709551615) = uint64_max"
    by (simp add: generation_def ShadowStorageImpl_ctor_def uint64_max_def)
  from bump_generation_at_max [OF h] h show ?thesis by simp
qed


section \<open>Ownership policy\<close>

lemma run_calls_policy:
  "run_calls True cs self = run_calls False cs self"
proof (induction cs arbitrary: self)
  case Nil
  show ?case by simp
next
  case (Cons c cs)
  have "call True c self = call False c self"
    by (cases c) (simp_all add: generation_def bump_generation_def)
  with Cons.IH show ?case by (simp split: sum.splits prod.splits)
qed

text \<open>
  Claim C5. A shared and an exclusive counter constructed from the same initial value and
  given the same sequence of \<open>generation\<close> and \<open>bump_generation\<close> calls return the
  same values from every call and end in the same state, or fail at the same call; a
  single \<open>generation\<close> or \<open>bump_generation\<close> call gives the same result under both
  policies.
\<close>

theorem ownership_policy_irrelevant:
  "run_calls True cs (ShadowStorageImpl_ctor True g) = run_calls False cs (ShadowStorageImpl_ctor False g)
   \<and> generation True (ShadowStorageImpl_ctor True g) = generation False (ShadowStorageImpl_ctor False g)
   \<and> bump_generation True (ShadowStorageImpl_ctor True g)
       = bump_generation False (ShadowStorageImpl_ctor False g)"
  by (simp add: run_calls_policy ShadowStorageImpl_ctor_def generation_def bump_generation_def)

section \<open>The mixin\<close>

text \<open>
  Claim C3. In a build without the instrumentation macro, a mixin constructed from any
  reference \<open>p\<close>, null or not, returns the null pointer from \<open>shadow_storage\<close> and the
  null reference from \<open>shadow_storage_ref\<close>.
\<close>

theorem mixin_disabled_returns_null:
  "shadow_storage False (ShadowStorageMixin_ctor False p) = nullptr
   \<and> shadow_storage_ref False (ShadowStorageMixin_ctor False p) = intrusive_ptr nullptr"
  by (simp add: shadow_storage_def shadow_storage_ref_def)

text \<open>
  Claim C6. In a build with the instrumentation macro, the raw pointer returned by
  \<open>shadow_storage\<close> is the address held by the reference that \<open>shadow_storage_ref\<close>
  returns, for every mixin; for a mixin constructed from \<open>p\<close> that reference is \<open>p\<close>.
\<close>

theorem mixin_enabled_same_object:
  "shadow_storage True self = get (shadow_storage_ref True self)
   \<and> shadow_storage True (ShadowStorageMixin_ctor True p)
       = get (shadow_storage_ref True (ShadowStorageMixin_ctor True p))
   \<and> shadow_storage_ref True (ShadowStorageMixin_ctor True p) = p"
  by (simp add: shadow_storage_def shadow_storage_ref_def ShadowStorageMixin_ctor_def)

section \<open>Monotonicity of the counter\<close>

lemma word_le_incr: "g \<noteq> uint64_max \<Longrightarrow> g \<le> g + 1"
  by (simp add: word_le_nat_alt unat_incr)

lemma call_result:
  assumes "call intrusive c self = Inr (v, self')"
  shows "v = generation_mem self'" and "generation_mem self \<le> generation_mem self'"
proof -
  show "v = generation_mem self'"
  proof (cases c)
    case Call_generation
    with assms show ?thesis by (auto simp: generation_def)
  next
    case Call_bump_generation
    with assms show ?thesis
      by (auto simp: bump_generation_def TORCH_INTERNAL_ASSERT_def Let_def split: if_splits)
  qed
  show "generation_mem self \<le> generation_mem self'"
  proof (cases c)
    case Call_generation
    with assms show ?thesis by (auto simp: generation_def)
  next
    case Call_bump_generation
    with assms show ?thesis
      by (auto simp: bump_generation_def TORCH_INTERNAL_ASSERT_def Let_def word_le_incr
          split: if_splits)
  qed
qed

lemma run_calls_monotone:
  assumes "run_calls intrusive cs self = (vs, r)"
  shows "sorted vs \<and> (\<forall>v \<in> set vs. generation_mem self \<le> v)
       \<and> (\<forall>self'. r = Inr self' \<longrightarrow>
            generation_mem self \<le> generation_mem self'
          \<and> (\<forall>v \<in> set vs. v \<le> generation_mem self'))"
  using assms
proof (induction cs arbitrary: self vs r)
  case Nil
  then show ?case by auto
next
  case (Cons c cs)
  show ?case
  proof (cases "call intrusive c self")
    case (Inl e)
    with Cons.prems show ?thesis by auto
  next
    case (Inr p)
    obtain v mid where p: "p = (v, mid)" by (cases p)
    obtain ws r' where rest: "run_calls intrusive cs mid = (ws, r')"
      by (cases "run_calls intrusive cs mid")
    from Cons.prems Inr p rest have vs: "vs = v # ws" and r: "r = r'" by simp_all
    from Inr p have step: "call intrusive c self = Inr (v, mid)" by simp
    note v = call_result [OF step]
    note ih = Cons.IH [OF rest]
    from ih v have "sorted (v # ws)" by auto
    moreover from ih v have "\<forall>x \<in> set (v # ws). generation_mem self \<le> x" by auto
    moreover have "\<forall>self'. r' = Inr self' \<longrightarrow>
            generation_mem self \<le> generation_mem self'
          \<and> (\<forall>x \<in> set (v # ws). x \<le> generation_mem self')"
      using ih v by auto
    ultimately show ?thesis using vs r by simp
  qed
qed

text \<open>
  Claim C8. Along any sequence of calls on one counter the values returned are in
  non-decreasing order and never below the initial generation, and the generation after
  the sequence is not below the initial one nor below any value returned. The accessor
  \<open>generation\<close> always returns, gives the stored value and leaves the counter as it
  was; a \<open>bump_generation\<close> below the maximum returns and raises the stored value by
  exactly 1.
\<close>

theorem generation_never_decreases:
  assumes "run_calls intrusive cs self = (vs, r)"
  shows "sorted vs
       \<and> (\<forall>v \<in> set vs. generation intrusive self \<le> v)
       \<and> (\<forall>self'. r = Inr self' \<longrightarrow>
              generation intrusive self \<le> generation intrusive self'
            \<and> (\<forall>v \<in> set vs. v \<le> generation intrusive self'))
       \<and> call intrusive Call_generation self = Inr (generation intrusive self, self)
       \<and> (generation intrusive self \<noteq> uint64_max \<longrightarrow>
            (\<exists>self'. bump_generation intrusive self = Inr (generation intrusive self', self')
               \<and> unat (generation intrusive self') = unat (generation intrusive self) + 1))"
proof -
  have "generation intrusive self \<noteq> uint64_max \<longrightarrow>
          (\<exists>self'. bump_generation intrusive self = Inr (generation intrusive self', self')
             \<and> unat (generation intrusive self') = unat (generation intrusive self) + 1)"
    by (simp add: generation_def bump_generation_ok unat_incr)
  moreover have "call intrusive Call_generation self = Inr (generation intrusive self, self)"
    by simp
  moreover note run_calls_monotone [OF assms]
  ultimately show ?thesis by (simp add: generation_def)
qed

theorem generation_never_decreases_witness:
  "run_calls True [Call_generation, Call_bump_generation, Call_generation, Call_bump_generation]
       (ShadowStorageImpl_ctor True 7)
     = ([7, 8, 8, 9], Inr \<lparr>generation_mem = 9\<rparr>)
   \<and> sorted [7, 8, 8, 9 :: uint64_t]
   \<and> generation True (ShadowStorageImpl_ctor True 7) \<le> 7
   \<and> generation True (ShadowStorageImpl_ctor True 7) \<le> 8
   \<and> generation True (ShadowStorageImpl_ctor True 7) \<le> 9
   \<and> generation True (ShadowStorageImpl_ctor True 7) \<le> generation True \<lparr>generation_mem = 9\<rparr>
   \<and> 8 \<le> generation True \<lparr>generation_mem = 9\<rparr>
   \<and> generation True (ShadowStorageImpl_ctor True 7) \<noteq> uint64_max
   \<and> (\<exists>self'. bump_generation True (ShadowStorageImpl_ctor True 7)
                  = Inr (generation True self', self')
          \<and> unat (generation True self') = unat (generation True (ShadowStorageImpl_ctor True 7)) + 1)"
proof -
  have run: "run_calls True [Call_generation, Call_bump_generation, Call_generation, Call_bump_generation]
       (ShadowStorageImpl_ctor True 7) = ([7, 8, 8, 9], Inr \<lparr>generation_mem = 9\<rparr>)"
    by (simp add: ShadowStorageImpl_ctor_def generation_def bump_generation_def
        TORCH_INTERNAL_ASSERT_def uint64_max_def Let_def)
  have below: "generation True (ShadowStorageImpl_ctor True 7) \<noteq> uint64_max"
    by (simp add: ShadowStorageImpl_ctor_def generation_def uint64_max_def)
  from generation_never_decreases [OF run] below
  have "sorted [7, 8, 8, 9 :: uint64_t]
   \<and> generation True (ShadowStorageImpl_ctor True 7) \<le> 7
   \<and> generation True (ShadowStorageImpl_ctor True 7) \<le> 8
   \<and> generation True (ShadowStorageImpl_ctor True 7) \<le> 9
   \<and> generation True (ShadowStorageImpl_ctor True 7) \<le> generation True \<lparr>generation_mem = 9\<rparr>
   \<and> 8 \<le> generation True \<lparr>generation_mem = 9\<rparr>
   \<and> generation True (ShadowStorageImpl_ctor True 7) \<noteq> uint64_max
   \<and> (\<exists>self'. bump_generation True (ShadowStorageImpl_ctor True 7)
                  = Inr (generation True self', self')
          \<and> unat (generation True self') = unat (generation True (ShadowStorageImpl_ctor True 7)) + 1)"
    by simp
  with run show ?thesis by blast
qed


section \<open>Counters in the store\<close>

lemma generation_at_Inr:
  "generation_at intrusive a h = Inr g \<longleftrightarrow> a < length h \<and> generation_mem (h ! a) = g"
  by (simp add: generation_at_def deref_def generation_def)

lemma generation_at_update:
  "b \<noteq> a \<Longrightarrow> generation_at intrusive b (h[a := x]) = generation_at intrusive b h"
  by (simp add: generation_at_def deref_def)

lemma bump_generation_at_ok:
  assumes "a < length h" and "generation_mem (h ! a) \<noteq> uint64_max"
  shows "bump_generation_at intrusive a h =
           Inr (generation_mem (h ! a) + 1,
                h[a := (h ! a)\<lparr>generation_mem := generation_mem (h ! a) + 1\<rparr>])"
  using assms by (simp add: bump_generation_at_def deref_def bump_generation_ok)

text \<open>
  Claim C7. Bumping the counter at one address \<open>n\<close> times, with room for \<open>n\<close> bumps below
  the maximum, returns, advances that counter by exactly \<open>n\<close> and changes the generation
  read at no other address. In the scenario of the specification the store holds a
  counter at generation 0 and a shadow constructed from that generation; after three
  bumps of the first the shadow reads 0 and the first reads 3.
\<close>

theorem bump_leaves_shadow_unchanged:
  assumes "generation_at intrusive storage h = Inr g"
    and "unat g + n \<le> 2 ^ 64 - 1"
    and "shadow \<noteq> storage"
  shows "\<exists>h'. bump_generation_at_times intrusive n storage h = Inr h'
            \<and> generation_at intrusive storage h' = Inr (g + of_nat n)
            \<and> unat (g + of_nat n) = unat g + n
            \<and> generation_at intrusive' shadow h' = generation_at intrusive' shadow h"
  using assms
proof (induction n arbitrary: h g)
  case 0
  then show ?case by simp
next
  case (Suc n)
  from Suc.prems(1) have valid: "storage < length h" and g: "generation_mem (h ! storage) = g"
    by (simp_all add: generation_at_Inr)
  from Suc.prems(2) have below: "g \<noteq> uint64_max" by (simp add: uint64_below_max)
  let ?h1 = "h[storage := (h ! storage)\<lparr>generation_mem := g + 1\<rparr>]"
  from valid g below have step: "bump_generation_at intrusive storage h = Inr (g + 1, ?h1)"
    by (simp add: bump_generation_at_ok)
  from valid have at1: "generation_at intrusive storage ?h1 = Inr (g + 1)"
    by (simp add: generation_at_Inr)
  from Suc.prems(2) below have room: "unat (g + 1) + n \<le> 2 ^ 64 - 1"
    by (simp add: unat_incr)
  from Suc.IH [OF at1 room Suc.prems(3)] obtain h' where
    run: "bump_generation_at_times intrusive n storage ?h1 = Inr h'"
    and live: "generation_at intrusive storage h' = Inr (g + 1 + of_nat n)"
    and frame: "generation_at intrusive' shadow h' = generation_at intrusive' shadow ?h1"
    by blast
  from step run have "bump_generation_at_times intrusive (Suc n) storage h = Inr h'" by simp
  moreover from live have "generation_at intrusive storage h' = Inr (g + of_nat (Suc n))"
    by (simp add: add.assoc)
  moreover from Suc.prems(2) have "unat (g + of_nat (Suc n)) = unat g + Suc n"
    by (rule unat_add_of_nat)
  moreover from frame Suc.prems(3)
  have "generation_at intrusive' shadow h' = generation_at intrusive' shadow h"
    by (simp add: generation_at_update)
  ultimately show ?case by blast
qed

theorem bump_leaves_shadow_unchanged_witness:
  "new_ShadowStorageImpl True 0 [] = (0, [\<lparr>generation_mem = 0\<rparr>])
   \<and> generation_at True 0 [\<lparr>generation_mem = 0\<rparr>] = Inr 0
   \<and> new_ShadowStorageImpl False 0 [\<lparr>generation_mem = 0\<rparr>]
       = (1, [\<lparr>generation_mem = 0\<rparr>, \<lparr>generation_mem = 0\<rparr>])
   \<and> (1 :: addr) \<noteq> 0
   \<and> unat (0 :: uint64_t) + 3 \<le> 2 ^ 64 - 1
   \<and> bump_generation_at_times True 3 0 [\<lparr>generation_mem = 0\<rparr>, \<lparr>generation_mem = 0\<rparr>]
       = Inr [\<lparr>generation_mem = 3\<rparr>, \<lparr>generation_mem = 0\<rparr>]
   \<and> generation_at False 1 [\<lparr>generation_mem = 3\<rparr>, \<lparr>generation_mem = 0\<rparr>] = Inr 0
   \<and> generation_at True 0 [\<lparr>generation_mem = 3\<rparr>, \<lparr>generation_mem = 0\<rparr>] = Inr 3"
proof -
  let ?h = "[\<lparr>generation_mem = 0\<rparr>, \<lparr>generation_mem = 0\<rparr>]"
  have live: "generation_at True 0 ?h = Inr 0"
    by (simp add: generation_at_def deref_def generation_def)
  have room: "unat (0 :: uint64_t) + 3 \<le> 2 ^ 64 - 1" by simp
  have apart: "(1 :: addr) \<noteq> 0" by simp
  have run: "bump_generation_at_times True 3 0 ?h
               = Inr [\<lparr>generation_mem = 3\<rparr>, \<lparr>generation_mem = 0\<rparr>]"
    by (simp add: numeral_3_eq_3 bump_generation_at_def deref_def bump_generation_def
        TORCH_INTERNAL_ASSERT_def uint64_max_def Let_def)
  from bump_leaves_shadow_unchanged [OF live room apart, of False] run
  have "generation_at False 1 [\<lparr>generation_mem = 3\<rparr>, \<lparr>generation_mem = 0\<rparr>]
          = generation_at False 1 ?h
      \<and> generation_at True 0 [\<lparr>generation_mem = 3\<rparr>, \<lparr>generation_mem = 0\<rparr>] = Inr 3"
    by simp
  moreover have "generation_at False 1 ?h = Inr 0"
    by (simp add: generation_at_def deref_def generation_def)
  ultimately show ?thesis using run
    by (simp add: new_ShadowStorageImpl_def ShadowStorageImpl_ctor_def generation_at_def
        deref_def generation_def)
qed

section \<open>The storage facade\<close>

text \<open>
  Claim C4. On a storage whose implementation pointer is null, both
  \<open>simulate_copy_on_write\<close> and \<open>maybe_bump_copy_on_write_generation\<close> end in the failed
  internal assertion, for every simulator argument and whatever the implementation's
  member functions are.
\<close>

theorem storage_null_impl_asserts:
  assumes "storage_impl_mem self = None"
  shows "simulate_copy_on_write impl_simulate self simulator = Inl InternalAssertFailed
       \<and> maybe_bump_copy_on_write_generation impl_maybe_bump self simulator
           = Inl InternalAssertFailed"
  using assms
  by (simp add: simulate_copy_on_write_def maybe_bump_copy_on_write_generation_def
      TORCH_INTERNAL_ASSERT_def)

theorem storage_null_impl_asserts_witness:
  "storage_impl_mem \<lparr>storage_impl_mem = (None :: nat option)\<rparr> = None
   \<and> simulate_copy_on_write (\<lambda>impl sim. Inr (impl, sim)) \<lparr>storage_impl_mem = (None :: nat option)\<rparr> (Some 4)
       = Inl InternalAssertFailed
   \<and> maybe_bump_copy_on_write_generation (\<lambda>impl sim. Inr (Suc impl))
         \<lparr>storage_impl_mem = (None :: nat option)\<rparr> (Some 4)
       = Inl InternalAssertFailed"
proof -
  have h: "storage_impl_mem \<lparr>storage_impl_mem = (None :: nat option)\<rparr> = None" by simp
  from storage_null_impl_asserts [OF h, of "\<lambda>impl sim. Inr (impl, sim)" "Some 4" "\<lambda>impl sim. Inr (Suc impl)"] h
  show ?thesis by simp
qed

text \<open>
  Claim C9. On a storage whose implementation is present, \<open>simulate_copy_on_write\<close>
  gives exactly the outcome of the implementation's own \<open>simulate_copy_on_write\<close> on
  that implementation and the same simulator argument.
\<close>

theorem simulate_copy_on_write_delegates:
  assumes "storage_impl_mem self = Some impl"
  shows "simulate_copy_on_write impl_simulate self simulator = impl_simulate impl simulator"
  using assms by (simp add: simulate_copy_on_write_def TORCH_INTERNAL_ASSERT_def)

theorem simulate_copy_on_write_delegates_witness:
  "storage_impl_mem \<lparr>storage_impl_mem = Some (10 :: nat)\<rparr> = Some 10
   \<and> simulate_copy_on_write (\<lambda>impl sim. Inr (impl + 1, sim))
         \<lparr>storage_impl_mem = Some (10 :: nat)\<rparr> (Some 4)
       = Inr (11, Some 4)"
proof -
  have h: "storage_impl_mem \<lparr>storage_impl_mem = Some (10 :: nat)\<rparr> = Some 10" by simp
  from simulate_copy_on_write_delegates [OF h, of "\<lambda>impl sim. Inr (impl + 1, sim)" "Some 4"] h
  show ?thesis by simp
qed

section \<open>The operators without CUDA\<close>

text \<open>
  Claim C10. In a build without \<open>USE_CUDA\<close>, \<open>fsdp_all_gather_copy_out\<close> and
  \<open>unflatten_cat_with_pad\<close>, called directly or through their registration, raise
  \<open>NotImplementedError\<close> for every input and leave the tensor memory as it was.
\<close>

theorem c10d_ops_not_implemented_without_cuda:
  "fsdp_all_gather_copy_out False k1 params all_gather_res world_size mem
     = (Inl (NotImplementedError ''Not implemented for CPU''), mem)
   \<and> unflatten_cat_with_pad False k2 tensors dim factor out mem
     = (Inl (NotImplementedError ''Not implemented for CPU''), mem)
   \<and> c10d_dispatch False k1 k2 op mem
     = (Inl (NotImplementedError ''Not implemented for CPU''), mem)"
  by (cases op)
    (simp_all add: fsdp_all_gather_copy_out_def unflatten_cat_with_pad_def C10_THROW_ERROR_def)

end
